theory Spec2Isabelle
  imports Main
begin

section \<open>A live-reloading markdown server: view matching, fan-out and path resolution\<close>

text \<open>
  The source file \<^verbatim>\<open>server.js\<close> holds two revisions of the server, one after the other.
  Revision 2 (the second half of the file) is the current program; revision 1 is the
  earlier text. Where the two revisions are the same text, one definition embeds both;
  where they differ, each has its own definition, suffixed \<open>_rev1\<close> or \<open>_rev2\<close>.

  JavaScript strings are modelled as \<^typ>\<open>string\<close>; every string operation used by the
  source is a list operation that does not depend on what a character is.
\<close>

subsection \<open>String methods used by the source\<close>

text \<open>\<^verbatim>\<open>s.startsWith(p)\<close>\<close>

fun startsWith :: "string \<Rightarrow> string \<Rightarrow> bool" where
  "startsWith s [] = True"
| "startsWith [] (p # ps) = False"
| "startsWith (c # cs) (p # ps) = (if c = p then startsWith cs ps else False)"

text \<open>\<^verbatim>\<open>s.endsWith(p)\<close>\<close>

definition endsWith :: "string \<Rightarrow> string \<Rightarrow> bool" where
  "endsWith s p = startsWith (rev s) (rev p)"

text \<open>\<^verbatim>\<open>s.includes(p)\<close>: \<open>p\<close> occurs in \<open>s\<close> at some position.\<close>

fun str_includes :: "string \<Rightarrow> string \<Rightarrow> bool" where
  "str_includes [] p = (p = [])"
| "str_includes (c # cs) p = (if startsWith (c # cs) p then True else str_includes cs p)"

text \<open>\<^verbatim>\<open>s.replace(/\/$/, '')\<close>: one trailing slash, if there is one, is removed.\<close>

definition strip_trailing_slash :: "string \<Rightarrow> string" where
  "strip_trailing_slash s = (if endsWith s ''/'' then butlast s else s)"

text \<open>\<^verbatim>\<open>s.split(c)\<close> for a separator of one character, and \<^verbatim>\<open>parts.join(d)\<close>.\<close>

fun split_str :: "string \<Rightarrow> char \<Rightarrow> string list" where
  "split_str [] c = [ [] ]"
| "split_str (x # xs) c =
     (if x = c then [] # split_str xs c
      else (case split_str xs c of [] \<Rightarrow> [ [x] ] | w # ws \<Rightarrow> (x # w) # ws))"

fun join_str :: "string list \<Rightarrow> string \<Rightarrow> string" where
  "join_str [] d = []"
| "join_str [w] d = w"
| "join_str (w # v # ws) d = w @ d @ join_str (v # ws) d"

subsection \<open>The update message\<close>

text \<open>
  The server sends \<^verbatim>\<open>JSON.stringify({ type: 'update', path: relativePath, event: event })\<close>
  and the client reads it back with \<^verbatim>\<open>JSON.parse\<close>. The object is modelled as the list of its
  keys and (string) values in the order of the object literal; a property read
  \<^verbatim>\<open>data.k\<close> is \<open>map_of data k\<close>, with \<open>None\<close> for \<^verbatim>\<open>undefined\<close>.
\<close>

type_synonym json_object = "(string \<times> string) list"

definition update_message :: "string \<Rightarrow> string \<Rightarrow> json_object" where
  "update_message relativePath event =
     [(''type'', ''update''), (''path'', relativePath), (''event'', event)]"

subsection \<open>The view-match engine (client side, \<^verbatim>\<open>socket.onmessage\<close>)\<close>

text \<open>
  The handler either reloads the page (\<open>Inr True\<close>), does nothing (\<open>Inr False\<close>), or
  throws a \<^verbatim>\<open>TypeError\<close> when it calls a string method on a missing \<^verbatim>\<open>data.path\<close>.
\<close>

datatype js_error = TypeError

text \<open>Revision 1, lines 188 to 244.\<close>

definition onmessage_rev1 :: "string \<Rightarrow> json_object \<Rightarrow> js_error + bool" where
  "onmessage_rev1 currentViewPath data =
     (if map_of data ''type'' = Some ''update'' then
        (if map_of data ''path'' = Some currentViewPath then Inr True
         else
           (case map_of data ''path'' of
              None \<Rightarrow> Inl TypeError
            | Some path \<Rightarrow>
                (if currentViewPath = [] then
                   (if \<not> str_includes path ''/'' then Inr True else Inr False)
                 else
                   (let prefix = currentViewPath @ ''/'' in
                    if startsWith path prefix then
                      (let remaining = drop (length prefix) path in
                       if \<not> str_includes remaining ''/'' then Inr True else Inr False)
                    else Inr False))))
      else Inr False)"

text \<open>
  Revision 2, lines 537 to 563: the handler as the source file spells it. The page that
  revision 2 serves never runs this text (see below), so it is kept apart from the
  decision of the served page.
\<close>

definition handler_rev2 :: "string \<Rightarrow> json_object \<Rightarrow> js_error + bool" where
  "handler_rev2 currentViewPath data =
     (let current = strip_trailing_slash currentViewPath in
      if map_of data ''type'' \<noteq> Some ''update'' then Inr False
      else if map_of data ''path'' = Some current then Inr True
      else if \<not> str_includes current ''.md'' then
        (let prefix = (if current \<noteq> [] then current @ ''/'' else []) in
         case map_of data ''path'' of
           None \<Rightarrow> Inl TypeError
         | Some path \<Rightarrow> (if startsWith path prefix then Inr True else Inr False))
      else Inr False)"

subsection \<open>The page script of revision 2 as the browser receives it\<close>

text \<open>
  \<^verbatim>\<open>generateHtml\<close> returns one template literal (lines 457 to 570 in revision 2). The
  handler is installed by the script of lines 514 to 567 of that document, and only if
  the browser makes a script element of it and its text is a JavaScript program. Both
  fail in revision 2.

  First, the document. After the content \<^verbatim>\<open>div\<close>, revision 1 goes on with the script
  (lines 165 to 250); revision 2 first opens a \<^verbatim>\<open>style\<close> element at line 513 and never
  closes it. The end of each document, tag by tag:
\<close>

datatype html_token = StartTag string | EndTag string | Characters

definition document_end_rev1 :: "html_token list" where
  "document_end_rev1 =
     [StartTag ''script'', Characters, EndTag ''script'', EndTag ''body'', EndTag ''html'']"

definition document_end_rev2 :: "html_token list" where
  "document_end_rev2 =
     [StartTag ''style'', Characters, StartTag ''script'', Characters, EndTag ''script'',
      EndTag ''body'', EndTag ''html'']"

text \<open>
  \<^verbatim>\<open>style\<close> and \<^verbatim>\<open>script\<close> hold raw text: after the start tag, everything up to the end tag
  of the same name is text, tags of other names included. \<open>script_elements\<close> counts the
  script elements that the HTML parser creates; its first argument is the raw text
  element that is open, if any.
\<close>

fun script_elements :: "string option \<Rightarrow> html_token list \<Rightarrow> nat" where
  "script_elements opened [] = 0"
| "script_elements None (StartTag n # ts) =
     (if n = ''script'' then Suc (script_elements (Some n) ts)
      else if n = ''style'' then script_elements (Some n) ts
      else script_elements None ts)"
| "script_elements None (t # ts) = script_elements None ts"
| "script_elements (Some r) (EndTag n # ts) =
     (if n = r then script_elements None ts else script_elements (Some r) ts)"
| "script_elements (Some r) (t # ts) = script_elements (Some r) ts"

text \<open>
  Second, the script text. The browser receives the cooked value of the template
  literal, in which a backslash before a slash is dropped and the slash kept. The only
  backslash of the script is in line 543,
  \<^verbatim>\<open>const current = currentViewPath.replace(/\/$/, '');\<close>
\<close>

definition line_543 :: string where
  "line_543 =
     ''const current = currentViewPath.replace(/'' @ [CHR 0x5C] @ ''/$/, '' @
     [CHR 0x27, CHR 0x27] @ '');''"

fun cooked :: "string \<Rightarrow> string" where
  "cooked (c # d # cs) =
     (if c = CHR 0x5C \<and> d = CHR ''/'' then d # cooked cs else c # cooked (d # cs))"
| "cooked cs = cs"

text \<open>
  Outside a string literal, two slashes in a row begin a comment that runs to the end of
  the line. \<open>open_parens\<close> reads one line of JavaScript and gives the number of
  parentheses left open at its end, or \<open>None\<close> when it closes one that is not open; its
  first argument is the quote of the string literal being read, if any.
\<close>

fun open_parens :: "char option \<Rightarrow> nat \<Rightarrow> string \<Rightarrow> nat option" where
  "open_parens quote depth [] = Some depth"
| "open_parens (Some q) depth (c # cs) =
     (if c = q then open_parens None depth cs else open_parens (Some q) depth cs)"
| "open_parens None depth (c # cs) =
     (if c = CHR ''/'' \<and> startsWith cs ''/'' then Some depth
      else if c = CHR 0x27 \<or> c = CHR 0x22 then open_parens (Some c) depth cs
      else if c = CHR ''('' then open_parens None (Suc depth) cs
      else if c = CHR '')'' then
        (case depth of 0 \<Rightarrow> None | Suc d \<Rightarrow> open_parens None d cs)
      else open_parens None depth cs)"

text \<open>
  The statement of line 543 ends on that line in the source, and the next line begins a
  new statement. The script can only run if the browser made a script element of it and
  the line it received closes the parenthesis it opens.
\<close>

definition script_runs_rev2 :: bool where
  "script_runs_rev2 \<longleftrightarrow>
     0 < script_elements None document_end_rev2 \<and>
     open_parens None 0 (cooked line_543) = Some 0"

text \<open>
  What the page served by revision 2 does when a message arrives: the handler's decision
  if the script ran, and nothing otherwise.
\<close>

definition onmessage_rev2 :: "string \<Rightarrow> json_object \<Rightarrow> js_error + bool" where
  "onmessage_rev2 currentViewPath data =
     (if script_runs_rev2 then handler_rev2 currentViewPath data else Inr False)"

text \<open>
  The decision \<open>match(V, C)\<close> of the specification: the viewer whose embedded view
  identifier is \<open>V\<close> reloads when the server's message for the changed path \<open>C\<close> arrives.
  The event kind is carried by the message and read by neither revision.
  \<open>match_rev2\<close> is the decision of the page that revision 2 serves;
  \<open>match_rev2_as_written\<close> is the decision that the handler text of revision 2 spells out.
\<close>

definition match_rev1 :: "string \<Rightarrow> string \<Rightarrow> bool" where
  "match_rev1 V C = (onmessage_rev1 V (update_message C ''change'') = Inr True)"

definition match_rev2 :: "string \<Rightarrow> string \<Rightarrow> bool" where
  "match_rev2 V C = (onmessage_rev2 V (update_message C ''change'') = Inr True)"

definition match_rev2_as_written :: "string \<Rightarrow> string \<Rightarrow> bool" where
  "match_rev2_as_written V C = (handler_rev2 V (update_message C ''change'') = Inr True)"

subsection \<open>The platform\<close>

text \<open>
  The server runs on Node's \<^verbatim>\<open>path\<close> and \<^verbatim>\<open>fs\<close> modules, the \<^verbatim>\<open>marked\<close> renderer and the
  \<^verbatim>\<open>mime-types\<close> table. They are not part of the repository, so the server is modelled
  over any platform: a record of the served root \<^verbatim>\<open>DOCS_DIR\<close> and of the library
  functions the source calls. \<^verbatim>\<open>fs.promises.stat\<close>, \<^verbatim>\<open>readdir\<close> and \<^verbatim>\<open>readFile\<close> reject when
  the path cannot be read; here they return \<open>None\<close>. \<^verbatim>\<open>mime.lookup\<close> returns \<^verbatim>\<open>false\<close> for an
  unknown extension; here \<open>None\<close>.
\<close>

datatype stats = IsFile | IsDirectory | IsOther

datatype dirent = Dirent (dirent_name: string) (dirent_isDirectory: bool)

record platform =
  DOCS_DIR :: string
  path_sep :: char
  path_join :: "string \<Rightarrow> string \<Rightarrow> string"
  path_relative :: "string \<Rightarrow> string \<Rightarrow> string"
  path_basename :: "string \<Rightarrow> string"
  fs_stat :: "string \<Rightarrow> stats option"
  fs_readdir :: "string \<Rightarrow> dirent list option"
  fs_readFile :: "string \<Rightarrow> string option"
  marked :: "string \<Rightarrow> string"
  mime_lookup :: "string \<Rightarrow> string option"

text \<open>
  \<^verbatim>\<open>path.relative(DOCS_DIR, filePath).split(path.sep).join('/')\<close>, which the source writes
  out at each place where it needs a path relative to the served root.
\<close>

definition relative_to_root :: "platform \<Rightarrow> string \<Rightarrow> string" where
  "relative_to_root pf filePath =
     join_str (split_str (path_relative pf (DOCS_DIR pf) filePath) (path_sep pf)) ''/''"

subsection \<open>The change watcher and the notification fan-out\<close>

text \<open>
  A viewer connection is its \<^verbatim>\<open>readyState\<close> and the messages sent to it so far.
  \<^verbatim>\<open>wss.clients\<close> is a set iterated in insertion order; here a list.
\<close>

datatype ready_state = CONNECTING | OPEN | CLOSING | CLOSED

record client =
  readyState :: ready_state
  sent :: "json_object list"

text \<open>The body of \<^verbatim>\<open>wss.clients.forEach\<close> (lines 82 to 86 and 410 to 414).\<close>

definition notify :: "client list \<Rightarrow> json_object \<Rightarrow> client list" where
  "notify clients msg =
     map (\<lambda>client. if readyState client = OPEN
                     then client\<lparr>sent := sent client @ [msg]\<rparr>
                     else client) clients"

text \<open>The listener of chokidar's \<^verbatim>\<open>all\<close> event: revision 1, lines 74 to 88.\<close>

definition on_all_rev1 :: "platform \<Rightarrow> client list \<Rightarrow> string \<Rightarrow> string \<Rightarrow> client list" where
  "on_all_rev1 pf clients event filePath =
     (if event = ''change'' \<or> event = ''add'' \<or> event = ''unlink'' then
        (let relativePath = relative_to_root pf filePath in
         notify clients (update_message relativePath event))
      else clients)"

text \<open>Revision 2, lines 395 to 416.\<close>

definition on_all_rev2 :: "platform \<Rightarrow> client list \<Rightarrow> string \<Rightarrow> string \<Rightarrow> client list" where
  "on_all_rev2 pf clients event filePath =
     (if event = ''change'' \<or> event = ''add'' \<or> event = ''unlink'' \<or>
         event = ''addDir'' \<or> event = ''unlinkDir'' then
        (let relativePath = relative_to_root pf filePath in
         notify clients (update_message relativePath event))
      else clients)"

subsection \<open>The request handler\<close>

text \<open>
  What a page shows is kept structured instead of as HTML text: either the output of
  \<^verbatim>\<open>marked\<close>, or a directory listing with its optional index preview (link target and
  rendered first lines), the request path of its heading, whether it has the parent
  entry, and its entries (is a directory, link target, name).
\<close>

datatype content =
  Rendered string
| Listing "(string \<times> string) option" string bool "(bool \<times> string \<times> string) list"

text \<open>
  The document built by \<^verbatim>\<open>generateHtml(content, title, currentPath)\<close>: its content, its
  title, the target of its back button (empty when there is none) and the string pasted
  into the page script as \<^verbatim>\<open>currentViewPath\<close>, the view identifier.
\<close>

record page =
  page_content :: content
  page_title :: string
  backLink :: string
  currentViewPath :: string

definition generateHtml :: "content \<Rightarrow> string \<Rightarrow> string \<Rightarrow> page" where
  "generateHtml cont title currentPath =
     (let backLink =
        (if currentPath \<noteq> [] \<and> currentPath \<noteq> ''.'' \<and> currentPath \<noteq> ''/'' then
           (let cleanPath = (if endsWith currentPath ''/'' then butlast currentPath
                             else currentPath);
                parts = split_str cleanPath CHR ''/''
            in if length parts > 1 then ''/'' @ join_str (butlast parts) ''/'' @ ''/''
               else ''/'')
         else [])
      in \<lparr>page_content = cont, page_title = title, backLink = backLink,
          currentViewPath = currentPath\<rparr>)"

text \<open>
  A response of the handler: a status with a body, a rendered page (status 200), a file
  sent as it is, no response at all (the handler returns without answering), or a
  rejected promise when a read fails after the path was resolved.
\<close>

datatype response =
  Status nat string
| Send page
| SendFile string
| NoResponse
| Rejected

text \<open>The filesystem reads of the handler, in the order it makes them.\<close>

datatype fs_op = Stat string | Readdir string | ReadFile string

text \<open>
  The path resolver: lines 266 to 288 of revision 1, the same text as lines 585 to 607
  of revision 2, from the decoded request path on. It answers 403 or 404, or gives the
  resolved file path and its stats.
\<close>

definition resolve :: "platform \<Rightarrow> string \<Rightarrow> (response + string \<times> stats) \<times> fs_op list" where
  "resolve pf requestPath =
     (if str_includes requestPath ''..'' then (Inl (Status 403 ''Forbidden''), [])
      else
        (let filePath = path_join pf (DOCS_DIR pf) requestPath in
         case fs_stat pf filePath of
           Some stats \<Rightarrow> (Inr (filePath, stats), [Stat filePath])
         | None \<Rightarrow>
             (if \<not> endsWith filePath ''.md'' then
                (let mdPath = filePath @ ''.md'' in
                 case fs_stat pf mdPath of
                   Some mdStats \<Rightarrow> (Inr (mdPath, mdStats), [Stat filePath, Stat mdPath])
                 | None \<Rightarrow> (Inl (Status 404 ''Not Found''), [Stat filePath, Stat mdPath]))
              else (Inl (Status 404 ''Not Found''), [Stat filePath]))))"

text \<open>The directory branch of revision 1, lines 290 to 316.\<close>

definition list_directory_rev1 :: "platform \<Rightarrow> string \<Rightarrow> string \<Rightarrow> response \<times> fs_op list" where
  "list_directory_rev1 pf requestPath filePath =
     (case fs_readdir pf filePath of
        None \<Rightarrow> (Rejected, [Readdir filePath])
      | Some files \<Rightarrow>
          (let entries =
                 map (\<lambda>file. (dirent_isDirectory file,
                               dirent_name file @ (if dirent_isDirectory file then ''/'' else []),
                               dirent_name file))
                   (filter (\<lambda>file. dirent_isDirectory file \<or> endsWith (dirent_name file) ''.md'')
                      files);
               relativeDir = relative_to_root pf filePath
           in (Send (generateHtml (Listing None requestPath (requestPath \<noteq> ''/'') entries)
                       (''Index of '' @ requestPath) relativeDir),
               [Readdir filePath])))"

text \<open>The directory branch of revision 2, lines 609 to 656, with the index preview.\<close>

definition list_directory_rev2 :: "platform \<Rightarrow> string \<Rightarrow> string \<Rightarrow> response \<times> fs_op list" where
  "list_directory_rev2 pf requestPath filePath =
     (case fs_readdir pf filePath of
        None \<Rightarrow> (Rejected, [Readdir filePath])
      | Some files \<Rightarrow>
          (let indexPath = path_join pf filePath ''index.md'';
               entries =
                 map (\<lambda>file. (dirent_isDirectory file,
                               dirent_name file @ (if dirent_isDirectory file then ''/'' else []),
                               dirent_name file))
                   (filter (\<lambda>file. dirent_isDirectory file \<or> endsWith (dirent_name file) ''.md'')
                      files);
               relativeDir = relative_to_root pf filePath
           in if fs_stat pf indexPath = Some IsFile then
                (case fs_readFile pf indexPath of
                   None \<Rightarrow> (Rejected, [Readdir filePath, Stat indexPath, ReadFile indexPath])
                 | Some raw \<Rightarrow>
                     (let firstLines = join_str (take 10 (split_str raw (CHR 0x0A))) [CHR 0x0A];
                          relativeIndexPath = relative_to_root pf indexPath;
                          indexPreview = Some (''/'' @ relativeIndexPath, marked pf firstLines)
                      in (Send (generateHtml
                                  (Listing indexPreview requestPath (requestPath \<noteq> ''/'') entries)
                                  (''Index of '' @ requestPath) relativeDir),
                          [Readdir filePath, Stat indexPath, ReadFile indexPath])))
              else
                (Send (generateHtml (Listing None requestPath (requestPath \<noteq> ''/'') entries)
                         (''Index of '' @ requestPath) relativeDir),
                 [Readdir filePath, Stat indexPath])))"

text \<open>
  The file branch: lines 318 to 336 of revision 1, the same text as lines 658 to 676 of
  revision 2.
\<close>

definition serve_file :: "platform \<Rightarrow> string \<Rightarrow> response \<times> fs_op list" where
  "serve_file pf filePath =
     (if endsWith filePath ''.md'' then
        (case fs_readFile pf filePath of
           None \<Rightarrow> (Rejected, [ReadFile filePath])
         | Some text \<Rightarrow>
             (let html = marked pf text;
                  relativePathStr = relative_to_root pf filePath
              in (Send (generateHtml (Rendered html) (path_basename pf filePath) relativePathStr),
                  [ReadFile filePath])))
      else
        (case mime_lookup pf filePath of
           None \<Rightarrow> (Status 403 ''Only markdown files and images are served.'', [])
         | Some mimeType \<Rightarrow>
             (if startsWith mimeType ''image/'' then (SendFile filePath, [])
              else (Status 403 ''Only markdown files and images are served.'', []))))"

text \<open>
  The handler of \<^verbatim>\<open>app.get(/.*/, ...)\<close> in each revision, from the decoded request path
  to the response and the filesystem reads made on the way.
\<close>

definition app_get_rev1 :: "platform \<Rightarrow> string \<Rightarrow> response \<times> fs_op list" where
  "app_get_rev1 pf requestPath =
     (case resolve pf requestPath of
        (Inl res, reads) \<Rightarrow> (res, reads)
      | (Inr (filePath, stats), reads) \<Rightarrow>
          (case stats of
             IsDirectory \<Rightarrow>
               (case list_directory_rev1 pf requestPath filePath of
                  (res, further) \<Rightarrow> (res, reads @ further))
           | IsFile \<Rightarrow> (case serve_file pf filePath of (res, further) \<Rightarrow> (res, reads @ further))
           | IsOther \<Rightarrow> (NoResponse, reads)))"

definition app_get_rev2 :: "platform \<Rightarrow> string \<Rightarrow> response \<times> fs_op list" where
  "app_get_rev2 pf requestPath =
     (case resolve pf requestPath of
        (Inl res, reads) \<Rightarrow> (res, reads)
      | (Inr (filePath, stats), reads) \<Rightarrow>
          (case stats of
             IsDirectory \<Rightarrow>
               (case list_directory_rev2 pf requestPath filePath of
                  (res, further) \<Rightarrow> (res, reads @ further))
           | IsFile \<Rightarrow> (case serve_file pf filePath of (res, further) \<Rightarrow> (res, reads @ further))
           | IsOther \<Rightarrow> (NoResponse, reads)))"

subsection \<open>A POSIX platform for concrete runs\<close>

text \<open>
  Node's \<^verbatim>\<open>path.posix\<close> functions on the arguments the server gives them: \<^verbatim>\<open>join\<close>
  normalises the joined path (empty and \<open>.\<close> segments dropped, \<open>..\<close> resolved, a trailing
  slash kept), \<^verbatim>\<open>relative\<close> of two absolute paths drops their common leading segments, and
  \<^verbatim>\<open>basename\<close> is the last segment. The filesystem is given by three tables; the
  renderer stands in for \<^verbatim>\<open>marked\<close> by wrapping the text in a paragraph, and the MIME
  table knows no extension.
\<close>

fun normalize_segments :: "bool \<Rightarrow> string list \<Rightarrow> string list \<Rightarrow> string list" where
  "normalize_segments allowAboveRoot acc [] = acc"
| "normalize_segments allowAboveRoot acc (s # ss) =
     (if s = [] \<or> s = ''.'' then normalize_segments allowAboveRoot acc ss
      else if s = ''..'' then
        (if acc \<noteq> [] \<and> last acc \<noteq> ''..''
         then normalize_segments allowAboveRoot (butlast acc) ss
         else if allowAboveRoot then normalize_segments allowAboveRoot (acc @ [''..'']) ss
         else normalize_segments allowAboveRoot acc ss)
      else normalize_segments allowAboveRoot (acc @ [s]) ss)"

definition posix_normalize :: "string \<Rightarrow> string" where
  "posix_normalize p =
     (if p = [] then ''.''
      else
        (let isAbsolute = (hd p = CHR ''/'');
             trailingSeparator = (last p = CHR ''/'');
             q = join_str (normalize_segments (\<not> isAbsolute) [] (split_str p CHR ''/'')) ''/''
         in if q = [] then (if isAbsolute then ''/'' else if trailingSeparator then ''./'' else ''.'')
            else (if isAbsolute then ''/'' else []) @ q @ (if trailingSeparator then ''/'' else [])))"

definition posix_join :: "string \<Rightarrow> string \<Rightarrow> string" where
  "posix_join a b =
     (if a = [] \<and> b = [] then ''.''
      else if a = [] then posix_normalize b
      else if b = [] then posix_normalize a
      else posix_normalize (a @ ''/'' @ b))"

fun common_segments :: "string list \<Rightarrow> string list \<Rightarrow> nat" where
  "common_segments (x # xs) (y # ys) = (if x = y then Suc (common_segments xs ys) else 0)"
| "common_segments xs ys = 0"

definition posix_relative :: "string \<Rightarrow> string \<Rightarrow> string" where
  "posix_relative from to =
     (let f = normalize_segments False [] (split_str from CHR ''/'');
          t = normalize_segments False [] (split_str to CHR ''/'');
          n = common_segments f t
      in join_str (replicate (length f - n) ''..'' @ drop n t) ''/'')"

definition posix_basename :: "string \<Rightarrow> string" where
  "posix_basename p =
     (let segs = filter (\<lambda>s. s \<noteq> []) (split_str p CHR ''/'')
      in if segs = [] then [] else last segs)"

definition posix_platform ::
  "string \<Rightarrow> (string \<times> stats) list \<Rightarrow> (string \<times> dirent list) list \<Rightarrow>
   (string \<times> string) list \<Rightarrow> platform" where
  "posix_platform root nodes dirs files =
     \<lparr>DOCS_DIR = root, path_sep = CHR ''/'', path_join = posix_join,
      path_relative = posix_relative, path_basename = posix_basename,
      fs_stat = map_of nodes, fs_readdir = map_of dirs, fs_readFile = map_of files,
      marked = (\<lambda>text. ''<p>'' @ text @ ''</p>''), mime_lookup = (\<lambda>p. None)\<rparr>"

text \<open>
  Three served roots used in the concrete runs below: one holding only \<open>notes.md\<close>, one
  holding only \<open>notes..md\<close>, and one holding a directory named \<open>docs.md.old\<close> with a file
  \<open>a.md\<close> in it.
\<close>

definition notes_site :: platform where
  "notes_site =
     posix_platform ''/srv/docs''
       [(''/srv/docs'', IsDirectory), (''/srv/docs/notes.md'', IsFile)]
       [(''/srv/docs'', [Dirent ''notes.md'' False])]
       [(''/srv/docs/notes.md'', ''# Notes'')]"

definition dotted_site :: platform where
  "dotted_site =
     posix_platform ''/srv/docs''
       [(''/srv/docs'', IsDirectory), (''/srv/docs/notes..md'', IsFile)]
       [(''/srv/docs'', [Dirent ''notes..md'' False])]
       [(''/srv/docs/notes..md'', ''# Notes'')]"

definition archive_site :: platform where
  "archive_site =
     posix_platform ''/srv/docs''
       [(''/srv/docs'', IsDirectory), (''/srv/docs/docs.md.old'', IsDirectory),
        (''/srv/docs/docs.md.old/a.md'', IsFile)]
       [(''/srv/docs'', [Dirent ''docs.md.old'' True]),
        (''/srv/docs/docs.md.old'', [Dirent ''a.md'' False])]
       [(''/srv/docs/docs.md.old/a.md'', ''# A'')]"

section \<open>Properties\<close>

subsection \<open>String lemmas\<close>

lemma startsWith_iff: "startsWith s p \<longleftrightarrow> (\<exists>t. s = p @ t)"
  by (induction s p rule: startsWith.induct) auto

lemma startsWith_refl: "startsWith s s"
  by (simp add: startsWith_iff)

lemma startsWith_append: "startsWith (p @ t) p"
  by (simp add: startsWith_iff)

lemma includes_iff: "str_includes s p \<longleftrightarrow> (\<exists>a b. s = a @ p @ b)"
proof (induction s)
  case Nil
  then show ?case by auto
next
  case (Cons c cs)
  show ?case
  proof
    assume "str_includes (c # cs) p"
    then consider "startsWith (c # cs) p" | "str_includes cs p"
      by (auto split: if_splits)
    then show "\<exists>a b. c # cs = a @ p @ b"
    proof cases
      case 1
      then obtain t where "c # cs = p @ t" by (auto simp: startsWith_iff)
      then have "c # cs = [] @ p @ t" by simp
      then show ?thesis by blast
    next
      case 2
      then obtain a b where "cs = a @ p @ b" using Cons.IH by blast
      then have "c # cs = (c # a) @ p @ b" by simp
      then show ?thesis by blast
    qed
  next
    assume "\<exists>a b. c # cs = a @ p @ b"
    then obtain a b where ab: "c # cs = a @ p @ b" by blast
    show "str_includes (c # cs) p"
    proof (cases a)
      case Nil
      then have "startsWith (c # cs) p" using ab by (auto simp: startsWith_iff)
      then show ?thesis by simp
    next
      case (Cons a0 as)
      then have "cs = as @ p @ b" using ab by simp
      then have "str_includes cs p" using Cons.IH by blast
      then show ?thesis by simp
    qed
  qed
qed

lemma endsWith_iff: "endsWith s p \<longleftrightarrow> (\<exists>t. s = t @ p)"
proof
  assume "endsWith s p"
  then obtain t where "rev s = rev p @ t" by (auto simp: endsWith_def startsWith_iff)
  then have "s = rev t @ p" by (metis rev_append rev_rev_ident)
  then show "\<exists>t. s = t @ p" by blast
next
  assume "\<exists>t. s = t @ p"
  then show "endsWith s p" by (auto simp: endsWith_def startsWith_iff)
qed

lemma endsWith_includes: "endsWith s p \<Longrightarrow> str_includes s p"
proof -
  assume "endsWith s p"
  then obtain t where "s = t @ p @ []" by (auto simp: endsWith_iff)
  then show ?thesis unfolding includes_iff by blast
qed

lemma str_includes_butlast: "str_includes (butlast s) p \<Longrightarrow> str_includes s p"
proof -
  assume "str_includes (butlast s) p"
  then obtain a b where ab: "butlast s = a @ p @ b" by (auto simp: includes_iff)
  show ?thesis
  proof (cases "s = []")
    case True
    then show ?thesis using ab by (simp add: includes_iff)
  next
    case False
    then have "s = a @ p @ (b @ [last s])"
      using ab by (metis append_butlast_last_id append.assoc)
    then show ?thesis unfolding includes_iff by blast
  qed
qed

lemma strip_trailing_slash_id: "\<not> endsWith V ''/'' \<Longrightarrow> strip_trailing_slash V = V"
  by (simp add: strip_trailing_slash_def)

lemma split_str_nonempty: "split_str s c \<noteq> []"
  by (cases s) (auto split: list.splits)

lemma join_str_Cons_Cons: "join_str ((x # w) # ws) d = x # join_str (w # ws) d"
  by (cases ws) auto

text \<open>Splitting at a character and joining with another replaces the one by the other.\<close>

lemma join_split_map:
  "join_str (split_str s c) [d] = map (\<lambda>x. if x = c then d else x) s"
proof (induction s)
  case Nil
  then show ?case by simp
next
  case (Cons x xs)
  obtain w ws where sp: "split_str xs c = w # ws"
    using split_str_nonempty [of xs c] by (cases "split_str xs c") auto
  show ?case using Cons.IH sp by (simp add: join_str_Cons_Cons)
qed

lemma relative_to_root_map:
  "relative_to_root pf filePath =
     map (\<lambda>x. if x = path_sep pf then CHR ''/'' else x)
       (path_relative pf (DOCS_DIR pf) filePath)"
  by (simp add: relative_to_root_def join_split_map)

text \<open>Every segment of a path occurs in the path.\<close>

lemma split_str_first: "split_str s c = w # ws \<Longrightarrow> startsWith s w"
proof (induction s arbitrary: w ws)
  case Nil
  then show ?case by simp
next
  case (Cons x xs)
  obtain v vs where sp: "split_str xs c = v # vs"
    using split_str_nonempty [of xs c] by (cases "split_str xs c") auto
  show ?case
  proof (cases "x = c")
    case True
    then show ?thesis using Cons.prems by auto
  next
    case False
    then have "w = x # v" using Cons.prems sp by simp
    moreover have "startsWith xs v" using Cons.IH sp by blast
    ultimately show ?thesis by simp
  qed
qed

lemma segment_included: "w \<in> set (split_str s c) \<Longrightarrow> str_includes s w"
proof (induction s)
  case Nil
  then show ?case by simp
next
  case (Cons x xs)
  obtain v vs where sp: "split_str xs c = v # vs"
    using split_str_nonempty [of xs c] by (cases "split_str xs c") auto
  show ?case
  proof (cases "x = c")
    case True
    then have "w = [] \<or> w \<in> set (split_str xs c)" using Cons.prems by auto
    then show ?thesis using Cons.IH by auto
  next
    case False
    then have "w = x # v \<or> w \<in> set vs" using Cons.prems sp by auto
    then show ?thesis
    proof
      assume "w = x # v"
      moreover have "startsWith xs v" using sp by (rule split_str_first)
      ultimately show ?thesis by simp
    next
      assume "w \<in> set vs"
      then have "str_includes xs w" using Cons.IH sp by simp
      then show ?thesis by simp
    qed
  qed
qed

subsection \<open>The decision of each revision as a formula\<close>

lemma match_rev1_eq:
  "match_rev1 V C \<longleftrightarrow>
     (if C = V then True
      else if V = [] then \<not> str_includes C ''/''
      else startsWith C (V @ ''/'') \<and> \<not> str_includes (drop (Suc (length V)) C) ''/'')"
  by (simp add: match_rev1_def onmessage_rev1_def update_message_def Let_def)

lemma match_rev2_as_written_eq:
  "match_rev2_as_written V C \<longleftrightarrow>
     (let current = strip_trailing_slash V in
      if C = current then True
      else if str_includes current ''.md'' then False
      else startsWith C (if current \<noteq> [] then current @ ''/'' else []))"
  by (simp add: match_rev2_as_written_def handler_rev2_def update_message_def Let_def)

subsection \<open>The page served by revision 2 never reloads\<close>

text \<open>
  In revision 1 the browser makes a script element of the page script. In revision 2
  the script start tag is text of the \<^verbatim>\<open>style\<close> element left open at line 513.
\<close>

lemma script_element_rev1: "script_elements None document_end_rev1 = 1"
  by (simp add: document_end_rev1_def)

lemma no_script_element_rev2: "script_elements None document_end_rev2 = 0"
  by (simp add: document_end_rev2_def)

text \<open>
  Line 543 closes its parenthesis as the source file spells it. As the browser receives
  it, \<^verbatim>\<open>replace(//$/, '');\<close>, the two slashes begin a comment and the parenthesis stays
  open.
\<close>

lemma line_543_as_written: "open_parens None 0 line_543 = Some 0"
  by (simp add: line_543_def)

lemma line_543_as_served: "open_parens None 0 (cooked line_543) = Some 1"
  by (simp add: line_543_def)

lemma script_never_runs_rev2: "\<not> script_runs_rev2"
  by (simp add: script_runs_rev2_def no_script_element_rev2)

lemma onmessage_rev2_nothing: "onmessage_rev2 V data = Inr False"
  by (simp add: onmessage_rev2_def script_never_runs_rev2)

lemma match_rev2_never: "\<not> match_rev2 V C"
  by (simp add: match_rev2_def onmessage_rev2_nothing)

subsection \<open>View identifiers of served pages\<close>

lemma endsWith_slash_iff: "endsWith s ''/'' \<longleftrightarrow> s \<noteq> [] \<and> last s = CHR ''/''"
proof
  assume "endsWith s ''/''"
  then obtain t where "s = t @ ''/''" by (auto simp: endsWith_iff)
  then show "s \<noteq> [] \<and> last s = CHR ''/''" by simp
next
  assume "s \<noteq> [] \<and> last s = CHR ''/''"
  then have "s = butlast s @ ''/''" by (metis append_butlast_last_id)
  then show "endsWith s ''/''" unfolding endsWith_iff by blast
qed

lemma split_str_no_sep: "w \<in> set (split_str s c) \<Longrightarrow> c \<notin> set w"
proof (induction s arbitrary: w)
  case Nil
  then show ?case by simp
next
  case (Cons x xs)
  obtain v vs where sp: "split_str xs c = v # vs"
    using split_str_nonempty [of xs c] by (cases "split_str xs c") auto
  have v: "c \<notin> set v" and vs: "\<And>u. u \<in> set vs \<Longrightarrow> c \<notin> set u"
    using Cons.IH sp by auto
  show ?case
  proof (cases "x = c")
    case True
    then have "w = [] \<or> w = v \<or> w \<in> set vs" using Cons.prems sp by auto
    then show ?thesis using v vs by auto
  next
    case False
    then have "w = x # v \<or> w \<in> set vs" using Cons.prems sp by auto
    then show ?thesis using v vs False by auto
  qed
qed

lemma normalize_segments_clean:
  "(\<And>s. s \<in> set acc \<Longrightarrow> s \<noteq> [] \<and> c \<notin> set s) \<Longrightarrow> (\<And>s. s \<in> set ss \<Longrightarrow> c \<notin> set s) \<Longrightarrow>
   u \<in> set (normalize_segments b acc ss) \<Longrightarrow> u \<noteq> [] \<and> c \<notin> set u"
proof (induction ss arbitrary: acc)
  case Nil
  then show ?case by simp
next
  case (Cons s ss)
  have bl: "\<And>t. t \<in> set (butlast acc) \<Longrightarrow> t \<noteq> [] \<and> c \<notin> set t"
  proof -
    fix t assume "t \<in> set (butlast acc)"
    then have "t \<in> set acc" by (rule in_set_butlastD)
    then show "t \<noteq> [] \<and> c \<notin> set t" by (rule Cons.prems(1))
  qed
  have cs: "c \<notin> set s" using Cons.prems(2) [of s] by simp
  show ?case
  proof (cases "s = [] \<or> s = ''.''")
    case True
    then show ?thesis using Cons by auto
  next
    case False
    note nf = this
    show ?thesis
    proof (cases "s = ''..''")
      case True
      then have cdd: "c \<notin> set ''..''" using cs by simp
      have app: "\<And>t. t \<in> set (acc @ [''..'']) \<Longrightarrow> t \<noteq> [] \<and> c \<notin> set t"
        using Cons.prems(1) cdd by auto
      show ?thesis
        using Cons.IH [of "butlast acc"] Cons.IH [of "acc @ [''..'']"] Cons.IH [of acc]
          Cons.prems bl app True
        by (auto split: if_splits)
    next
      case False
      have app: "\<And>t. t \<in> set (acc @ [s]) \<Longrightarrow> t \<noteq> [] \<and> c \<notin> set t"
        using Cons.prems(1) cs nf by auto
      show ?thesis using Cons.IH [of "acc @ [s]"] Cons.prems app False nf by auto
    qed
  qed
qed

lemma join_str_last:
  "ws \<noteq> [] \<Longrightarrow> last ws \<noteq> [] \<Longrightarrow> join_str ws d \<noteq> [] \<and> last (join_str ws d) = last (last ws)"
  by (induction ws d rule: join_str.induct) auto

lemma posix_relative_no_trailing_slash: "\<not> endsWith (posix_relative from to) ''/''"
proof -
  define f where "f = normalize_segments False [] (split_str from CHR ''/'')"
  define t where "t = normalize_segments False [] (split_str to CHR ''/'')"
  define ws where "ws = replicate (length f - common_segments f t) ''..'' @ drop (common_segments f t) t"
  have r: "posix_relative from to = join_str ws ''/''"
    by (simp add: posix_relative_def f_def t_def ws_def Let_def)
  have t_clean: "\<And>u. u \<in> set t \<Longrightarrow> u \<noteq> [] \<and> CHR ''/'' \<notin> set u"
    unfolding t_def using normalize_segments_clean [of "[]" "CHR ''/''" "split_str to CHR ''/''"]
      split_str_no_sep by auto
  have ws_clean: "\<And>u. u \<in> set ws \<Longrightarrow> u \<noteq> [] \<and> CHR ''/'' \<notin> set u"
    unfolding ws_def using t_clean by (auto dest: in_set_dropD)
  show ?thesis
  proof (cases "ws = []")
    case True
    then show ?thesis using r by (simp add: endsWith_def)
  next
    case False
    then have l: "last ws \<in> set ws" by simp
    then have "last ws \<noteq> []" and ns: "CHR ''/'' \<notin> set (last ws)" using ws_clean by auto
    then have "join_str ws ''/'' \<noteq> [] \<and> last (join_str ws ''/'') = last (last ws)"
      using False join_str_last by blast
    moreover have "last (last ws) \<noteq> CHR ''/''" using ns \<open>last ws \<noteq> []\<close> last_in_set by metis
    ultimately show ?thesis using r by (simp add: endsWith_slash_iff)
  qed
qed

lemma currentViewPath_generateHtml: "currentViewPath (generateHtml c t p) = p"
  by (simp add: generateHtml_def Let_def)

text \<open>
  On the POSIX platform, the view identifier of every page the handler serves has no
  trailing slash: it is a path relative to the served root.
\<close>

lemma posix_view_identifier:
  assumes "path_sep pf = CHR ''/''" and "path_relative pf = posix_relative"
    and "app_get_rev2 pf requestPath = (Send pg, reads) \<or>
         app_get_rev1 pf requestPath = (Send pg, reads)"
  shows "\<not> endsWith (currentViewPath pg) ''/''"
proof -
  have rel: "\<And>p. relative_to_root pf p = posix_relative (DOCS_DIR pf) p"
    using assms(1,2) by (simp add: relative_to_root_map)
  have "\<exists>c t p. pg = generateHtml c t (relative_to_root pf p)"
    using assms(3)
    by (auto simp add: app_get_rev1_def app_get_rev2_def resolve_def list_directory_rev1_def
        list_directory_rev2_def serve_file_def Let_def
        split: if_splits option.splits stats.splits prod.splits sum.splits)
  then show ?thesis
    using rel posix_relative_no_trailing_slash by (auto simp: currentViewPath_generateHtml)
qed

subsection \<open>The exact-match rule\<close>

text \<open>In revision 1 a change to the viewed path itself reloads, whatever the path.\<close>

lemma exact_match_rev1: "match_rev1 V V"
  by (simp add: match_rev1_eq)

text \<open>
  The handler text of revision 2 decides the same for a view identifier without a
  trailing slash.
\<close>

lemma exact_match_rev2_as_written: "\<not> endsWith V ''/'' \<Longrightarrow> match_rev2_as_written V V"
  by (simp add: match_rev2_as_written_eq strip_trailing_slash_id)

text \<open>
  Claim C5 says that a changed path equal to the view identifier reloads the viewer.
  Revision 1 does so for every view identifier. The page served by revision 2 does not:
  its script never runs, so it reloads on no message, the exact match included.
\<close>

theorem exact_match_not_reloaded_rev2: "match_rev1 V V \<and> \<not> match_rev2 V V"
  by (simp add: exact_match_rev1 match_rev2_never)

subsection \<open>Markdown file views\<close>

text \<open>
  Claim C6. The view identifier of a markdown file view is the file's relative path,
  which ends in \<open>.md\<close>. For every such \<open>V\<close> the containment rule is not applied: a change
  to any other path \<open>C\<close> does not reload, neither on the page that revision 2 serves nor
  by the handler text of revision 2; so \<open>match("guide/intro.md", "guide/other.md")\<close> is
  false.
\<close>

theorem markdown_view_no_containment:
  "endsWith V ''.md'' \<Longrightarrow> C \<noteq> V \<Longrightarrow> \<not> match_rev2 V C \<and> \<not> match_rev2_as_written V C"
proof -
  assume md: "endsWith V ''.md''" and ne: "C \<noteq> V"
  have "\<not> endsWith V ''/''"
    using md by (auto simp: endsWith_iff)
  then have cur: "strip_trailing_slash V = V" by (rule strip_trailing_slash_id)
  have "str_includes V ''.md''" using md by (rule endsWith_includes)
  then have "\<not> match_rev2_as_written V C"
    using ne cur by (simp add: match_rev2_as_written_eq)
  then show ?thesis by (simp add: match_rev2_never)
qed

theorem markdown_view_no_containment_witness:
  "endsWith ''guide/intro.md'' ''.md'' \<and> ''guide/other.md'' \<noteq> ''guide/intro.md'' \<and>
   \<not> match_rev2 ''guide/intro.md'' ''guide/other.md'' \<and>
   \<not> match_rev2_as_written ''guide/intro.md'' ''guide/other.md''"
proof -
  have h1: "endsWith ''guide/intro.md'' ''.md''" by (simp add: endsWith_def)
  have h2: "''guide/other.md'' \<noteq> ''guide/intro.md''" by simp
  show ?thesis using h1 h2 markdown_view_no_containment [OF h1 h2] by simp
qed

subsection \<open>The root directory listing\<close>

text \<open>
  In revision 1 a viewer at the root (view identifier the empty string) reloads if and
  only if the changed path is an exact match or contains no slash.
\<close>

lemma root_view_rev1: "match_rev1 [] C \<longleftrightarrow> (C = [] \<or> \<not> str_includes C ''/'')"
  by (auto simp add: match_rev1_eq)

text \<open>
  The handler text of revision 2 has the empty prefix at the root, which every path
  starts with.
\<close>

lemma root_view_rev2_as_written: "match_rev2_as_written [] C"
  by (simp add: match_rev2_as_written_eq strip_trailing_slash_def endsWith_def)

text \<open>
  Claim C2 says that a viewer at the root reloads if and only if the changed path is an
  exact match or contains no slash, so that \<open>match("", "readme.md")\<close> is true and
  \<open>match("", "guide/intro.md")\<close> is false. Revision 1 decides so. The page served by
  revision 2 does not reload on \<open>readme.md\<close>: its script never runs.
\<close>

theorem root_view_not_reloaded_rev2:
  "match_rev1 [] ''readme.md'' \<and> \<not> match_rev1 [] ''guide/intro.md'' \<and>
   \<not> match_rev2 [] ''readme.md''"
  by (simp add: match_rev1_eq match_rev2_never)

subsection \<open>The two revisions of the engine\<close>




text \<open>
  Inside the view the handler texts differ by design: for a view identifier that does
  not contain \<open>.md\<close>, the handler text of revision 2 reloads wherever revision 1 does, and
  on deeper descendants as well.
\<close>

lemma rev1_reload_implies_rev2_as_written:
  "\<not> str_includes V ''.md'' \<Longrightarrow> match_rev1 V C \<Longrightarrow> match_rev2_as_written V C"
proof -
  assume nomd: "\<not> str_includes V ''.md''" and m1: "match_rev1 V C"
  show ?thesis
  proof (cases "endsWith V ''/''")
    case False
    then have cur: "strip_trailing_slash V = V" by (rule strip_trailing_slash_id)
    show ?thesis using m1 nomd
      by (auto simp add: match_rev2_as_written_eq match_rev1_eq cur split: if_splits)
  next
    case True
    then obtain t where V: "V = t @ ''/''" by (auto simp: endsWith_iff)
    have cur: "strip_trailing_slash V = t" using True V by (simp add: strip_trailing_slash_def)
    have "\<not> str_includes (butlast V) ''.md''" using nomd str_includes_butlast by blast
    then have nomd': "\<not> str_includes t ''.md''" using V by simp
    have "startsWith C V" using m1 V by (auto simp: match_rev1_eq startsWith_iff split: if_splits)
    then have "startsWith C (t @ ''/'')" using V by simp
    moreover have "startsWith C []" by simp
    ultimately show ?thesis using nomd' by (simp add: match_rev2_as_written_eq cur)
  qed
qed

lemma deeper_descendant_as_written:
  "match_rev2_as_written ''guide'' ''guide/sub/deep.md'' \<and>
   \<not> match_rev1 ''guide'' ''guide/sub/deep.md''"
  by (simp add: match_rev2_as_written_eq match_rev1_eq strip_trailing_slash_def endsWith_def)

subsection \<open>Directory views\<close>

text \<open>
  For a view identifier without a trailing slash that does not contain \<open>.md\<close>, the handler
  text of revision 2 reloads on every changed path below it, direct child or deeper
  descendant.
\<close>

lemma directory_view_containment_as_written:
  "\<not> str_includes V ''.md'' \<Longrightarrow> \<not> endsWith V ''/'' \<Longrightarrow> startsWith C (V @ ''/'') \<Longrightarrow>
   match_rev2_as_written V C"
  by (simp add: match_rev2_as_written_eq strip_trailing_slash_id)

text \<open>
  Claim C1 says that every viewer of a directory listing reloads on every changed path
  that starts with its view identifier and a slash. The handler text of revision 2 takes
  a view identifier that contains \<open>.md\<close> anywhere for a markdown file view: the listing of
  the directory \<open>docs.md.old\<close> is served with the view identifier \<open>docs.md.old\<close>, and a
  change to \<open>docs.md.old/a.md\<close> does not reload it, neither on the page as served nor by
  the handler text.
\<close>

theorem directory_view_not_reloaded:
  "app_get_rev2 archive_site ''/docs.md.old'' =
     (Send \<lparr>page_content = Listing None ''/docs.md.old'' True [(False, ''a.md'', ''a.md'')],
            page_title = ''Index of /docs.md.old'', backLink = ''/'',
            currentViewPath = ''docs.md.old''\<rparr>,
      [Stat ''/srv/docs/docs.md.old'', Readdir ''/srv/docs/docs.md.old'',
       Stat ''/srv/docs/docs.md.old/index.md'']) \<and>
   startsWith ''docs.md.old/a.md'' (''docs.md.old'' @ ''/'') \<and>
   \<not> match_rev2 ''docs.md.old'' ''docs.md.old/a.md'' \<and>
   \<not> match_rev2_as_written ''docs.md.old'' ''docs.md.old/a.md''"
  by code_simp

subsection \<open>The change watcher\<close>

text \<open>
  Claim C3. For each of the five event kinds that chokidar reports (file modified,
  created, deleted; directory created, deleted), the listener of revision 2 notifies
  the clients with a message that carries the event kind and the path relative to the
  served root, in which every path separator is a forward slash.
\<close>

theorem watcher_forwards_five_kinds:
  "event \<in> {''change'', ''add'', ''unlink'', ''addDir'', ''unlinkDir''} \<Longrightarrow>
   on_all_rev2 pf clients event filePath =
     notify clients (update_message (relative_to_root pf filePath) event) \<and>
   map_of (update_message (relative_to_root pf filePath) event) ''event'' = Some event \<and>
   map_of (update_message (relative_to_root pf filePath) event) ''path'' =
     Some (map (\<lambda>c. if c = path_sep pf then CHR ''/'' else c)
             (path_relative pf (DOCS_DIR pf) filePath))"
  by (auto simp add: on_all_rev2_def update_message_def relative_to_root_map)

theorem watcher_forwards_five_kinds_witness:
  "''addDir'' \<in> {''change'', ''add'', ''unlink'', ''addDir'', ''unlinkDir''} \<and>
   on_all_rev2 notes_site [\<lparr>readyState = OPEN, sent = []\<rparr>] ''addDir'' ''/srv/docs/guide/sub'' =
     [\<lparr>readyState = OPEN,
       sent = [ [(''type'', ''update''), (''path'', ''guide/sub''), (''event'', ''addDir'')] ]\<rparr>]"
proof -
  have h: "''addDir'' \<in> {''change'', ''add'', ''unlink'', ''addDir'', ''unlinkDir''}" by simp
  have r: "relative_to_root notes_site ''/srv/docs/guide/sub'' = ''guide/sub''"
    by (simp add: notes_site_def posix_platform_def relative_to_root_def posix_relative_def)
  show ?thesis
    using h watcher_forwards_five_kinds [OF h, of notes_site "[\<lparr>readyState = OPEN, sent = []\<rparr>]"
        "''/srv/docs/guide/sub''"]
    by (simp add: r notify_def update_message_def)
qed

text \<open>The listener of revision 1 drops the two directory events.\<close>

lemma rev1_drops_directory_events:
  "on_all_rev1 pf clients ''addDir'' filePath = clients \<and>
   on_all_rev1 pf clients ''unlinkDir'' filePath = clients"
  by (simp add: on_all_rev1_def)

subsection \<open>The notification fan-out\<close>

text \<open>
  Claim C4 says that the message delivered is \<open>{ kind: "update", event, path }\<close>. The
  message that an open connection receives has the key \<open>type\<close>, not \<open>kind\<close>; a message
  with the key \<open>kind\<close> would be ignored by the client.
\<close>

theorem delivered_message_has_type_key:
  "on_all_rev2 notes_site
     [\<lparr>readyState = OPEN, sent = []\<rparr>, \<lparr>readyState = CLOSING, sent = []\<rparr>]
     ''change'' ''/srv/docs/notes.md'' =
     [\<lparr>readyState = OPEN,
       sent = [ [(''type'', ''update''), (''path'', ''notes.md''), (''event'', ''change'')] ]\<rparr>,
      \<lparr>readyState = CLOSING, sent = []\<rparr>] \<and>
   map_of (update_message ''notes.md'' ''change'') ''kind'' = None \<and>
   onmessage_rev2 ''notes.md''
     [(''kind'', ''update''), (''event'', ''change''), (''path'', ''notes.md'')] = Inr False"
  by code_simp

text \<open>
  Claim C4, as amended. On each change event of the five kinds, the fan-out keeps the
  connections as they are, in number and order; every connection whose state is \<open>OPEN\<close>
  is sent the message \<open>{ type: "update", path: <relative path>, event: <event kind> }\<close>
  once, and every other connection is left untouched.
\<close>

theorem fan_out_delivery:
  assumes "event \<in> {''change'', ''add'', ''unlink'', ''addDir'', ''unlinkDir''}"
    and "i < length clients"
  shows "length (on_all_rev2 pf clients event filePath) = length clients \<and>
         on_all_rev2 pf clients event filePath ! i =
           (if readyState (clients ! i) = OPEN
            then (clients ! i)\<lparr>sent := sent (clients ! i) @
                   [ [(''type'', ''update''), (''path'', relative_to_root pf filePath),
                     (''event'', event)] ]\<rparr>
            else clients ! i)"
  using assms by (auto simp add: on_all_rev2_def notify_def update_message_def)

theorem fan_out_delivery_witness:
  "''unlink'' \<in> {''change'', ''add'', ''unlink'', ''addDir'', ''unlinkDir''} \<and>
   (0::nat) < length [\<lparr>readyState = OPEN, sent = []\<rparr>, \<lparr>readyState = CLOSED, sent = []\<rparr>] \<and>
   (1::nat) < length [\<lparr>readyState = OPEN, sent = []\<rparr>, \<lparr>readyState = CLOSED, sent = []\<rparr>] \<and>
   on_all_rev2 notes_site [\<lparr>readyState = OPEN, sent = []\<rparr>, \<lparr>readyState = CLOSED, sent = []\<rparr>]
     ''unlink'' ''/srv/docs/notes.md'' ! 0 =
     \<lparr>readyState = OPEN,
      sent = [ [(''type'', ''update''), (''path'', ''notes.md''), (''event'', ''unlink'')] ]\<rparr> \<and>
   on_all_rev2 notes_site [\<lparr>readyState = OPEN, sent = []\<rparr>, \<lparr>readyState = CLOSED, sent = []\<rparr>]
     ''unlink'' ''/srv/docs/notes.md'' ! 1 = \<lparr>readyState = CLOSED, sent = []\<rparr>"
proof -
  have h: "''unlink'' \<in> {''change'', ''add'', ''unlink'', ''addDir'', ''unlinkDir''}" by simp
  have h0: "(0::nat) < length [\<lparr>readyState = OPEN, sent = []\<rparr>, \<lparr>readyState = CLOSED, sent = []\<rparr>]"
    by simp
  have h1: "(1::nat) < length [\<lparr>readyState = OPEN, sent = []\<rparr>, \<lparr>readyState = CLOSED, sent = []\<rparr>]"
    by simp
  have r: "relative_to_root notes_site ''/srv/docs/notes.md'' = ''notes.md''"
    by (simp add: notes_site_def posix_platform_def relative_to_root_def posix_relative_def)
  show ?thesis
    using h h0 h1
      fan_out_delivery [OF h h0, of notes_site "''/srv/docs/notes.md''"]
      fan_out_delivery [OF h h1, of notes_site "''/srv/docs/notes.md''"]
    by (simp add: r)
qed

subsection \<open>The path resolver\<close>

lemma resolve_forbidden:
  "str_includes requestPath ''..'' \<Longrightarrow>
   resolve pf requestPath = (Inl (Status 403 ''Forbidden''), [])"
  by (simp add: resolve_def)

text \<open>
  Claim C7. For every request path that has a parent-directory segment \<open>..\<close>, the handler
  of either revision answers 403 Forbidden and makes no filesystem read, so it reads
  nothing outside the served root.
\<close>

theorem traversal_rejected:
  "''..'' \<in> set (split_str requestPath CHR ''/'') \<Longrightarrow>
   app_get_rev2 pf requestPath = (Status 403 ''Forbidden'', []) \<and>
   app_get_rev1 pf requestPath = (Status 403 ''Forbidden'', [])"
proof -
  assume "''..'' \<in> set (split_str requestPath CHR ''/'')"
  then have "str_includes requestPath ''..''" by (rule segment_included)
  then have "resolve pf requestPath = (Inl (Status 403 ''Forbidden''), [])"
    by (rule resolve_forbidden)
  then show ?thesis by (simp add: app_get_rev1_def app_get_rev2_def)
qed

theorem traversal_rejected_witness:
  "''..'' \<in> set (split_str ''/../secret.txt'' CHR ''/'') \<and>
   app_get_rev2 notes_site ''/../secret.txt'' = (Status 403 ''Forbidden'', []) \<and>
   app_get_rev1 notes_site ''/../secret.txt'' = (Status 403 ''Forbidden'', [])"
proof -
  have h: "''..'' \<in> set (split_str ''/../secret.txt'' CHR ''/'')" by simp
  show ?thesis using h traversal_rejected [OF h, of notes_site] by simp
qed



text \<open>
  Claim C10 says that no file whose path contains two dots in a row can be served. A
  request for the path of such a file is rejected, but the file \<open>notes..md\<close> is served in
  answer to the request path \<open>/notes.\<close>, which has no two dots in a row: the candidate
  does not exist, and the candidate with \<open>.md\<close> appended is the file.
\<close>

theorem dotted_file_served:
  "app_get_rev2 dotted_site ''/notes.'' =
     (Send \<lparr>page_content = Rendered ''<p># Notes</p>'', page_title = ''notes..md'',
            backLink = ''/'', currentViewPath = ''notes..md''\<rparr>,
      [Stat ''/srv/docs/notes.'', Stat ''/srv/docs/notes..md'', ReadFile ''/srv/docs/notes..md''])"
  by code_simp

text \<open>
  Claim C10, as amended. The handler of either revision answers 403 Forbidden, without
  a filesystem read, to every decoded request path that contains two dots in a row
  anywhere, also where they are no parent-directory segment (\<open>/notes..md\<close>,
  \<open>/a..b/f.md\<close>); so no file is served in answer to a request path that contains them.
\<close>

theorem dotdot_rejected:
  "str_includes requestPath ''..'' \<Longrightarrow>
   app_get_rev2 pf requestPath = (Status 403 ''Forbidden'', []) \<and>
   app_get_rev1 pf requestPath = (Status 403 ''Forbidden'', [])"
  by (simp add: app_get_rev1_def app_get_rev2_def resolve_forbidden)

theorem dotdot_rejected_witness:
  "str_includes ''/notes..md'' ''..'' \<and>
   ''..'' \<notin> set (split_str ''/notes..md'' CHR ''/'') \<and>
   fs_stat dotted_site ''/srv/docs/notes..md'' = Some IsFile \<and>
   app_get_rev2 dotted_site ''/notes..md'' = (Status 403 ''Forbidden'', []) \<and>
   app_get_rev1 dotted_site ''/notes..md'' = (Status 403 ''Forbidden'', [])"
proof -
  have h: "str_includes ''/notes..md'' ''..''" by simp
  have f: "fs_stat dotted_site ''/srv/docs/notes..md'' = Some IsFile"
    by (simp add: dotted_site_def posix_platform_def)
  show ?thesis using h f dotdot_rejected [OF h, of dotted_site] by simp
qed

end
